theory Spec2Isabelle
  imports Complex_Main "HOL-Library.AList"
begin

section \<open>Path planner (backend/algorithms/trajectory_planner.py)\<close>

text \<open>
  Python floats are modelled as the real numbers, and a 3-element coordinate list or
  tuple as a triple. \<open>float('inf')\<close>, which the planner uses as the start value of its
  running minima, is a constructor of its own.
\<close>

type_synonym point = "real \<times> real \<times> real"

datatype sep = PosInf | Finite real

text \<open>\<open>min(min_separation, distance)\<close> with a finite second argument.\<close>

fun sep_min :: "sep \<Rightarrow> real \<Rightarrow> sep" where
  "sep_min PosInf d = Finite d"
| "sep_min (Finite m) d = Finite (min m d)"

text \<open>\<open>min_separation >= safety_radius\<close>.\<close>

fun sep_ge :: "sep \<Rightarrow> real \<Rightarrow> bool" where
  "sep_ge PosInf r = True"
| "sep_ge (Finite m) r = (r \<le> m)"

fun point_to_line_distance :: "point \<Rightarrow> point \<Rightarrow> point \<Rightarrow> real" where
  "point_to_line_distance (sx, sy, sz) (ex, ey, ez) (px, py, pz) =
     (let line_vec0 = ex - sx; line_vec1 = ey - sy; line_vec2 = ez - sz;
          point_vec0 = px - sx; point_vec1 = py - sy; point_vec2 = pz - sz;
          line_length_sq = line_vec0\<^sup>2 + line_vec1\<^sup>2 + line_vec2\<^sup>2
      in if line_length_sq = 0
         then sqrt (point_vec0\<^sup>2 + point_vec1\<^sup>2 + point_vec2\<^sup>2)
         else
           let t = max 0 (min 1 ((point_vec0 * line_vec0 + point_vec1 * line_vec1
                                   + point_vec2 * line_vec2) / line_length_sq));
               closest0 = sx + t * line_vec0;
               closest1 = sy + t * line_vec1;
               closest2 = sz + t * line_vec2;
               dx = px - closest0; dy = py - closest1; dz = pz - closest2
           in sqrt (dx\<^sup>2 + dy\<^sup>2 + dz\<^sup>2))"

fun is_path_clear :: "real \<Rightarrow> point \<Rightarrow> point \<Rightarrow> point list \<Rightarrow> bool" where
  "is_path_clear safety_radius start goal [] = True"
| "is_path_clear safety_radius start goal (obstacle # rest) =
     (if point_to_line_distance start goal obstacle < safety_radius then False
      else is_path_clear safety_radius start goal rest)"

fun cross_product :: "point \<Rightarrow> point \<Rightarrow> point" where
  "cross_product (a0, a1, a2) (b0, b1, b2) =
     (a1 * b2 - a2 * b1, a2 * b0 - a0 * b2, a0 * b1 - a1 * b0)"

fun calculate_detour_midpoint :: "real \<Rightarrow> point \<Rightarrow> point \<Rightarrow> point \<Rightarrow> point" where
  "calculate_detour_midpoint safety_radius (sx, sy, sz) (gx, gy, gz) (ox, oy, oz) =
     (let goal_vec = (gx - sx, gy - sy, gz - sz);
          obs_vec = (ox - sx, oy - sy, oz - sz);
          goal_length_sq = (gx - sx)\<^sup>2 + (gy - sy)\<^sup>2 + (gz - sz)\<^sup>2
      in if goal_length_sq = 0 then (sx, sy, sz)
         else
           let t0 = ((ox - sx) * (gx - sx) + (oy - sy) * (gy - sy) + (oz - sz) * (gz - sz))
                      / goal_length_sq;
               t = max 0 (min 1 t0);
               projected0 = sx + t * (gx - sx);
               projected1 = sy + t * (gy - sy);
               projected2 = sz + t * (gz - sz);
               offset_vec = (ox - projected0, oy - projected1, oz - projected2);
               cp = cross_product goal_vec offset_vec;
               cp_length = sqrt ((fst cp)\<^sup>2 + (fst (snd cp))\<^sup>2 + (snd (snd cp))\<^sup>2);
               perpendicular = (if cp_length = 0
                                then (if gz - sz = 0 then (0, 0, 1) else (1, 0, 0))
                                else cp);
               perpendicular_length = (if cp_length = 0 then 1 else cp_length);
               n0 = fst perpendicular / perpendicular_length;
               n1 = fst (snd perpendicular) / perpendicular_length;
               n2 = snd (snd perpendicular) / perpendicular_length;
               detour_distance = safety_radius * 1.5
           in (projected0 + detour_distance * n0,
               projected1 + detour_distance * n1,
               projected2 + detour_distance * n2))"

text \<open>
  The search loop of \<open>_find_detour_path\<close> for the obstacle closest to the segment. The
  pair \<open>(min_distance, closest_obstacle)\<close> starts as \<open>(inf, None)\<close>, here \<open>None\<close>, and
  is replaced only by a strictly smaller distance.
\<close>

fun closest_obstacle_loop ::
  "point \<Rightarrow> point \<Rightarrow> point list \<Rightarrow> (real \<times> point) option \<Rightarrow> (real \<times> point) option" where
  "closest_obstacle_loop start goal [] acc = acc"
| "closest_obstacle_loop start goal (obstacle # rest) acc =
     (let distance = point_to_line_distance start goal obstacle
      in closest_obstacle_loop start goal rest
           (case acc of
              None \<Rightarrow> Some (distance, obstacle)
            | Some (min_distance, closest_obstacle) \<Rightarrow>
                if distance < min_distance then Some (distance, obstacle)
                else Some (min_distance, closest_obstacle)))"

text \<open>
  \<open>_find_detour_path\<close> recurses with no depth bound, so it is a partial function: the
  value \<open>None\<close> stands for a search that never returns. The first sub-search is run to
  its end before the second one starts.
\<close>

partial_function (option) find_detour_path ::
  "real \<Rightarrow> point \<Rightarrow> point \<Rightarrow> point list \<Rightarrow> point list option" where
  "find_detour_path safety_radius start goal obstacles =
     (case closest_obstacle_loop start goal obstacles None of
        None \<Rightarrow> Some [start, goal]
      | Some (min_distance, closest_obstacle) \<Rightarrow>
          (let midpoint = calculate_detour_midpoint safety_radius start goal closest_obstacle;
               path1_clear = is_path_clear safety_radius start midpoint obstacles;
               path2_clear = is_path_clear safety_radius midpoint goal obstacles
           in if path1_clear \<and> path2_clear then Some [start, midpoint, goal]
              else
                Option.bind
                  (if \<not> path1_clear
                   then find_detour_path safety_radius start midpoint obstacles
                   else Some [start, midpoint])
                  (\<lambda>detour1.
                     Option.bind
                       (if \<not> path2_clear
                        then find_detour_path safety_radius midpoint goal obstacles
                        else Some [midpoint, goal])
                       (\<lambda>detour2. Some (butlast detour1 @ detour2)))))"

definition plan_path :: "real \<Rightarrow> point \<Rightarrow> point \<Rightarrow> point list \<Rightarrow> point list option" where
  "plan_path safety_radius start goal obstacles =
     (if is_path_clear safety_radius start goal obstacles then Some [start, goal]
      else find_detour_path safety_radius start goal obstacles)"

record report =
  valid :: bool
  reason :: "string option"
  pathLength :: real
  minSeparation :: sep
  success :: bool
  waypoints :: "nat option"

fun euclid :: "point \<Rightarrow> point \<Rightarrow> real" where
  "euclid (ax, ay, az) (bx, by, bz) = sqrt ((bx - ax)\<^sup>2 + (by - ay)\<^sup>2 + (bz - az)\<^sup>2)"

definition path_length_loop :: "point list \<Rightarrow> real" where
  "path_length_loop path =
     fold (\<lambda>i path_length. path_length + euclid (path ! (i - 1)) (path ! i))
       [1..<length path] 0"

definition min_separation_loop :: "point list \<Rightarrow> point list \<Rightarrow> sep" where
  "min_separation_loop path obstacles =
     fold (\<lambda>i min_separation.
             fold (\<lambda>obstacle m.
                     sep_min m (point_to_line_distance (path ! i) (path ! (i + 1)) obstacle))
               obstacles min_separation)
       [0..<length path - 1] PosInf"

definition validate_path :: "real \<Rightarrow> point list \<Rightarrow> point list \<Rightarrow> report" where
  "validate_path safety_radius path obstacles =
     (if length path < 2
      then \<lparr>valid = False, reason = Some ''Path too short'', pathLength = 0,
            minSeparation = PosInf, success = False, waypoints = None\<rparr>
      else
        let path_length = path_length_loop path;
            min_separation = min_separation_loop path obstacles;
            safe = sep_ge min_separation safety_radius
        in \<lparr>valid = safe, reason = None, pathLength = path_length,
            minSeparation = min_separation, success = safe,
            waypoints = Some (length path)\<rparr>)"


section \<open>Drone simulator (backend/simulators/mock_simulator.py)\<close>

datatype DroneStatus = IDLE | TAKING_OFF | FLYING | LANDING | ERROR

text \<open>
  The dataclass \<open>DroneState\<close>. Its field \<open>id\<close> is called \<open>drone_id\<close> here, and
  \<open>run_id\<close> is the attribute that \<open>create_swarm\<close> adds to every drone it makes.
\<close>

record DroneState =
  drone_id :: string
  x :: real
  y :: real
  z :: real
  vx :: real
  vy :: real
  vz :: real
  battery :: real
  status :: DroneStatus
  target_x :: real
  target_y :: real
  target_z :: real
  takeoff_height :: real
  takeoff_start :: real
  takeoff_duration :: real
  land_start :: real
  last_update :: real
  run_id :: string

text \<open>
  \<open>self.drones\<close>: a Python dict keeps its keys in insertion order, and \<open>set_formation\<close>
  depends on that order, so the registry is an association list. Lookup is \<open>map_of\<close>,
  item assignment is \<open>AList.update\<close> (in place for a known key, appended for a new one).
\<close>

type_synonym registry = "(string \<times> DroneState) list"

text \<open>The constants that \<open>DroneSimulator.__init__\<close> fixes.\<close>

definition tick_rate :: real where "tick_rate = 20"
definition dt :: real where "dt = 1 / tick_rate"
definition max_speed :: real where "max_speed = 1"
definition max_height :: real where "max_height = 1"
definition workspace_bounds :: real where "workspace_bounds = 2"
definition battery_drain_rate :: real where "battery_drain_rate = 1 / 10"

text \<open>
  The six \<open>random.gauss\<close> draws of one drone in one tick, in the order the code makes
  them, and the reading of \<open>time.time()\<close>, are inputs of the model.
\<close>

record noise =
  noise_x :: real
  noise_y :: real
  noise_z :: real
  noise_vx :: real
  noise_vy :: real
  noise_vz :: real

datatype py_error = ZeroDivisionError

text \<open>
  \<open>_update_takeoff\<close>. The quotient \<open>elapsed / drone.takeoff_duration\<close> raises when the
  duration is 0 and the clock reading lies before \<open>takeoff_start\<close>.
\<close>

definition update_takeoff :: "DroneState \<Rightarrow> real \<Rightarrow> py_error + DroneState" where
  "update_takeoff drone current_time =
     (let elapsed = current_time - takeoff_start drone
      in if elapsed \<ge> takeoff_duration drone
         then Inr (drone\<lparr>z := takeoff_height drone, vz := 0, status := FLYING\<rparr>)
         else if takeoff_duration drone = 0 then Inl ZeroDivisionError
         else
           let progress = elapsed / takeoff_duration drone;
               target_z = takeoff_height drone * progress;
               error = target_z - z drone;
               new_vz = min max_speed (max (- max_speed) (error * 2))
           in Inr (drone\<lparr>vz := new_vz, z := z drone + new_vz * dt\<rparr>))"

definition update_flying :: "DroneState \<Rightarrow> real \<Rightarrow> DroneState" where
  "update_flying drone current_time =
     (let dx = target_x drone - x drone;
          dy = target_y drone - y drone;
          dz = target_z drone - z drone;
          distance = sqrt (dx\<^sup>2 + dy\<^sup>2 + dz\<^sup>2)
      in if distance > 5 / 100
         then
           let speed_factor = min 1 (distance / (1 / 10));
               target_speed = max_speed * speed_factor;
               new_vx = (dx / distance) * target_speed;
               new_vy = (dy / distance) * target_speed;
               new_vz = (dz / distance) * target_speed
           in drone\<lparr>vx := new_vx, vy := new_vy, vz := new_vz,
                     x := x drone + new_vx * dt,
                     y := y drone + new_vy * dt,
                     z := z drone + new_vz * dt\<rparr>
         else drone\<lparr>vx := 0, vy := 0, vz := 0\<rparr>)"

definition update_landing :: "DroneState \<Rightarrow> real \<Rightarrow> DroneState" where
  "update_landing drone current_time =
     (let target_z = 0;
          dz = target_z - z drone
      in if \<bar>dz\<bar> > 5 / 100
         then
           let new_vz = min max_speed (max (- max_speed) (dz * 2))
           in drone\<lparr>vz := new_vz, z := z drone + new_vz * dt\<rparr>
         else drone\<lparr>z := 0, vz := 0, status := IDLE\<rparr>)"

text \<open>The body of the loop of \<open>_update_drones\<close>, for one drone.\<close>

definition apply_noise :: "noise \<Rightarrow> DroneState \<Rightarrow> DroneState" where
  "apply_noise n drone =
     drone\<lparr>x := x drone + noise_x n, y := y drone + noise_y n, z := z drone + noise_z n,
           vx := vx drone + noise_vx n, vy := vy drone + noise_vy n,
           vz := vz drone + noise_vz n\<rparr>"

definition check_errors :: "DroneState \<Rightarrow> DroneState" where
  "check_errors drone =
     (if battery drone \<le> 0 then drone\<lparr>status := ERROR\<rparr>
      else if \<bar>x drone\<bar> > workspace_bounds \<or> \<bar>y drone\<bar> > workspace_bounds
              \<or> z drone > max_height
      then drone\<lparr>status := ERROR\<rparr>
      else drone)"

text \<open>
  The drone objects are changed in place. When \<open>_update_takeoff\<close> raises, the battery
  assignment made before it stays, so the result is the drone as the step leaves it,
  together with the exception if there is one.
\<close>

definition update_drone ::
  "real \<Rightarrow> noise \<Rightarrow> DroneState \<Rightarrow> DroneState \<times> py_error option" where
  "update_drone current_time n drone0 =
     (let drone = drone0\<lparr>battery := max 0 (battery drone0 - battery_drain_rate * dt)\<rparr>;
          moved = (if status drone = TAKING_OFF then update_takeoff drone current_time
                   else if status drone = FLYING then Inr (update_flying drone current_time)
                   else if status drone = LANDING then Inr (update_landing drone current_time)
                   else Inr drone)
      in case moved of
           Inl e \<Rightarrow> (drone, Some e)
         | Inr drone1 \<Rightarrow>
             ((check_errors (apply_noise n drone1))\<lparr>last_update := current_time\<rparr>, None))"

text \<open>
  \<open>_update_drones\<close>: one tick over the registry, in its order; the drone at position
  \<open>k\<close> receives the draws \<open>noises k\<close>. An exception leaves the loop: the drones after
  the one that raised are not touched. The result is the registry after the tick and the
  exception, if any.
\<close>

fun update_drones_from ::
  "nat \<Rightarrow> real \<Rightarrow> (nat \<Rightarrow> noise) \<Rightarrow> registry \<Rightarrow> registry \<times> py_error option" where
  "update_drones_from k current_time noises [] = ([], None)"
| "update_drones_from k current_time noises ((key, drone) # rest) =
     (case update_drone current_time (noises k) drone of
        (drone', Some e) \<Rightarrow> ((key, drone') # rest, Some e)
      | (drone', None) \<Rightarrow>
          (case update_drones_from (Suc k) current_time noises rest of
             (rest', err) \<Rightarrow> ((key, drone') # rest', err)))"

definition update_drones ::
  "real \<Rightarrow> (nat \<Rightarrow> noise) \<Rightarrow> registry \<Rightarrow> registry \<times> py_error option" where
  "update_drones current_time noises drones = update_drones_from 0 current_time noises drones"

text \<open>
  A run of ticks, each with its clock reading and its draws. An exception of a tick ends
  the simulation loop.
\<close>

fun run_ticks ::
  "(real \<times> (nat \<Rightarrow> noise)) list \<Rightarrow> registry \<Rightarrow> registry \<times> py_error option" where
  "run_ticks [] drones = (drones, None)"
| "run_ticks ((current_time, noises) # ticks) drones =
     (case update_drones current_time noises drones of
        (drones', Some e) \<Rightarrow> (drones', Some e)
      | (drones', None) \<Rightarrow> run_ticks ticks drones')"

subsection \<open>Commands\<close>

text \<open>Decimal digits of a number, for the identifiers \<open>d1\<close>, \<open>d2\<close>, ...\<close>

fun str_nat :: "nat \<Rightarrow> string" where
  "str_nat n = (if n < 10 then [''0123456789'' ! n]
                else str_nat (n div 10) @ [''0123456789'' ! (n mod 10)])"

declare str_nat.simps [simp del]

text \<open>\<open>DroneState(id=drone_id)\<close> followed by \<open>drone.run_id = run_id\<close>.\<close>

definition new_drone :: "string \<Rightarrow> string \<Rightarrow> DroneState" where
  "new_drone did rid =
     \<lparr>drone_id = did, x = 0, y = 0, z = 0, vx = 0, vy = 0, vz = 0, battery = 100,
      status = IDLE, target_x = 0, target_y = 0, target_z = 0, takeoff_height = 0,
      takeoff_start = 0, takeoff_duration = 0, land_start = 0, last_update = 0,
      run_id = rid\<rparr>"

fun create_swarm_loop :: "nat list \<Rightarrow> string \<Rightarrow> registry \<Rightarrow> string list \<times> registry" where
  "create_swarm_loop [] rid drones = ([], drones)"
| "create_swarm_loop (i # rest) rid drones =
     (let did = CHR ''d'' # str_nat (i + 1);
          (ids, drones') = create_swarm_loop rest rid (AList.update did (new_drone did rid) drones)
      in (did # ids, drones'))"

definition create_swarm :: "registry \<Rightarrow> int \<Rightarrow> string \<Rightarrow> string list \<times> registry" where
  "create_swarm drones count rid = create_swarm_loop [0..<nat count] rid drones"

definition takeoff :: "registry \<Rightarrow> string \<Rightarrow> real \<Rightarrow> real \<Rightarrow> real \<Rightarrow> bool \<times> registry" where
  "takeoff drones did height duration current_time =
     (case map_of drones did of
        None \<Rightarrow> (False, drones)
      | Some drone \<Rightarrow>
          if status drone \<noteq> IDLE then (False, drones)
          else (True, AList.update did
                        (drone\<lparr>status := TAKING_OFF, takeoff_height := height,
                               takeoff_duration := duration, takeoff_start := current_time\<rparr>)
                        drones))"

definition goto ::
  "registry \<Rightarrow> string \<Rightarrow> real \<Rightarrow> real \<Rightarrow> real \<Rightarrow> real \<Rightarrow> bool \<times> registry" where
  "goto drones did gx gy gz speed =
     (case map_of drones did of
        None \<Rightarrow> (False, drones)
      | Some drone \<Rightarrow>
          if status drone \<notin> {FLYING, TAKING_OFF} then (False, drones)
          else (True, AList.update did
                        (drone\<lparr>target_x := gx, target_y := gy, target_z := gz\<rparr>) drones))"

definition land :: "registry \<Rightarrow> string \<Rightarrow> real \<Rightarrow> bool \<times> registry" where
  "land drones did current_time =
     (case map_of drones did of
        None \<Rightarrow> (False, drones)
      | Some drone \<Rightarrow>
          if status drone \<notin> {FLYING, TAKING_OFF} then (False, drones)
          else (True, AList.update did
                        (drone\<lparr>status := LANDING, land_start := current_time\<rparr>) drones))"

definition emergency_stop :: "registry \<Rightarrow> registry" where
  "emergency_stop drones =
     map (\<lambda>(key, drone). (key, drone\<lparr>vx := 0, vy := 0, vz := 0, status := IDLE\<rparr>)) drones"

definition reset :: "registry \<Rightarrow> registry" where
  "reset drones = []"

subsection \<open>Formations\<close>

text \<open>\<open>parameters.get(key, default)\<close> on a dict of numbers.\<close>

definition param_get :: "(string \<rightharpoonup> real) \<Rightarrow> string \<Rightarrow> real \<Rightarrow> real" where
  "param_get parameters key dflt = (case parameters key of None \<Rightarrow> dflt | Some v \<Rightarrow> v)"

text \<open>
  \<open>_calculate_formation_positions\<close>. Its only caller passes \<open>len(flying_drones)\<close> as
  \<open>count\<close>, a natural number.
\<close>

definition calculate_formation_positions ::
  "string \<Rightarrow> nat \<Rightarrow> (string \<rightharpoonup> real) \<Rightarrow> point list" where
  "calculate_formation_positions formation count parameters =
     (if formation = ''line'' then
        let spacing = param_get parameters ''spacing'' (1 / 2)
        in map (\<lambda>i. ((real i - (real count - 1) / 2) * spacing, 0, 6 / 10)) [0..<count]
      else if formation = ''circle'' then
        let radius = param_get parameters ''radius'' 1;
            height = param_get parameters ''height'' (6 / 10)
        in map (\<lambda>i. let angle = 2 * pi * real i / real count
                     in (radius * cos angle, radius * sin angle, height)) [0..<count]
      else if formation = ''grid'' then
        let cols = nat \<lceil>sqrt (real count)\<rceil>;
            spacing = param_get parameters ''spacing'' (1 / 2);
            height = param_get parameters ''height'' (6 / 10)
        in map (\<lambda>i. let row = i div cols; col = i mod cols
                     in ((real col - (real cols - 1) / 2) * spacing,
                         (real row - (real (count div cols) - 1) / 2) * spacing,
                         height)) [0..<count]
      else if formation = ''vshape'' then
        let spacing = param_get parameters ''spacing'' (1 / 2);
            height = param_get parameters ''height'' (6 / 10)
        in map (\<lambda>i. if i = 0 then (0, 0, height)
                     else
                       let side = (if i mod 2 = 1 then 1 else - 1);
                           row = (i + 1) div 2
                       in (real row * spacing, side * real row * spacing * (1 / 2), height))
             [0..<count]
      else [])"

text \<open>
  The assignment loop of \<open>set_formation\<close>: the \<open>i\<close>-th flying drone of the registry, in
  registry order, takes the \<open>i\<close>-th position when there is one.
\<close>

fun assign_targets :: "point list \<Rightarrow> nat \<Rightarrow> registry \<Rightarrow> registry" where
  "assign_targets positions i [] = []"
| "assign_targets positions i ((key, drone) # rest) =
     (if status drone = FLYING
      then (key, if i < length positions
                 then drone\<lparr>target_x := fst (positions ! i),
                            target_y := fst (snd (positions ! i)),
                            target_z := snd (snd (positions ! i))\<rparr>
                 else drone) # assign_targets positions (Suc i) rest
      else (key, drone) # assign_targets positions i rest)"

definition set_formation :: "registry \<Rightarrow> string \<Rightarrow> (string \<rightharpoonup> real) \<Rightarrow> bool \<times> registry" where
  "set_formation drones formation parameters =
     (let flying_drones = filter (\<lambda>(key, drone). status drone = FLYING) drones
      in if flying_drones = [] then (False, drones)
         else
           let positions = calculate_formation_positions formation (length flying_drones)
                             parameters
           in (True, assign_targets positions 0 drones))"

section \<open>Notions used in the statements and proofs\<close>

text \<open>A path all of whose segments pass \<open>_is_path_clear\<close>.\<close>

fun safe_chain :: "real \<Rightarrow> point list \<Rightarrow> point list \<Rightarrow> bool" where
  "safe_chain r obstacles [] = True"
| "safe_chain r obstacles [p] = True"
| "safe_chain r obstacles (p # q # rest) =
     (is_path_clear r p q obstacles \<and> safe_chain r obstacles (q # rest))"

text \<open>A path of at least two waypoints from \<open>s\<close> to \<open>g\<close>, all segments clear.\<close>

definition well_routed :: "real \<Rightarrow> point list \<Rightarrow> point \<Rightarrow> point \<Rightarrow> point list \<Rightarrow> bool" where
  "well_routed r obstacles s g path \<longleftrightarrow>
     2 \<le> length path \<and> hd path = s \<and> last path = g \<and> safe_chain r obstacles path"

text \<open>What \<open>get_drone_state\<close> shows of the status and the battery of a drone.\<close>

definition status_of :: "registry \<Rightarrow> string \<Rightarrow> DroneStatus option" where
  "status_of drones did = map_option status (map_of drones did)"

definition battery_of :: "registry \<Rightarrow> string \<Rightarrow> real option" where
  "battery_of drones did = map_option battery (map_of drones did)"

text \<open>Noise draws for the examples: none, a drop in \<open>z\<close>, a jump in \<open>x\<close>.\<close>

definition calm :: "nat \<Rightarrow> noise" where
  "calm k = \<lparr>noise_x = 0, noise_y = 0, noise_z = 0, noise_vx = 0, noise_vy = 0, noise_vz = 0\<rparr>"

definition dip :: "nat \<Rightarrow> noise" where
  "dip k = \<lparr>noise_x = 0, noise_y = 0, noise_z = - (1 / 100),
            noise_vx = 0, noise_vy = 0, noise_vz = 0\<rparr>"

definition drift :: "nat \<Rightarrow> noise" where
  "drift k = \<lparr>noise_x = 3, noise_y = 0, noise_z = 0,
              noise_vx = 0, noise_vy = 0, noise_vz = 0\<rparr>"

section \<open>The path planner\<close>

lemma is_path_clear_iff:
  "is_path_clear r s g obstacles \<longleftrightarrow> (\<forall>ob \<in> set obstacles. r \<le> point_to_line_distance s g ob)"
  by (induction obstacles) auto

lemma closest_obstacle_loop_Some:
  "closest_obstacle_loop s g obstacles (Some a) \<noteq> None"
  by (induction obstacles arbitrary: a) (auto simp: Let_def split: if_splits prod.splits)

lemma closest_obstacle_loop_None:
  "closest_obstacle_loop s g obstacles None = None \<Longrightarrow> obstacles = []"
  by (cases obstacles) (auto simp: Let_def closest_obstacle_loop_Some)

lemma safe_chain_join:
  "safe_chain r obstacles (xs @ [m]) \<Longrightarrow> safe_chain r obstacles (m # ys)
     \<Longrightarrow> safe_chain r obstacles (xs @ m # ys)"
  by (induction r obstacles xs rule: safe_chain.induct) auto

lemma well_routed_join:
  assumes "well_routed r obstacles s m d1" and "well_routed r obstacles m g d2"
  shows "well_routed r obstacles s g (butlast d1 @ d2)"
proof -
  from assms(1) obtain xs where d1: "d1 = xs @ [m]" and xs: "xs \<noteq> []" and hx: "hd xs = s"
    unfolding well_routed_def
    by (cases d1 rule: rev_cases) (auto simp: hd_append split: if_splits)
  from assms(2) obtain ys where d2: "d2 = m # ys" and ys: "ys \<noteq> []" and ly: "last ys = g"
    unfolding well_routed_def by (cases d2) (auto split: if_splits)
  have "safe_chain r obstacles (xs @ m # ys)"
    using assms d1 d2 by (auto simp: well_routed_def intro: safe_chain_join)
  then show ?thesis
    using xs ys hx ly d1 d2 by (cases xs) (auto simp: well_routed_def)
qed

lemma find_detour_path_well_routed:
  assumes "find_detour_path r s g obstacles = Some path"
  shows "well_routed r obstacles s g path"
  using assms
proof (induction rule: find_detour_path.raw_induct [rotated 1, consumes 1, case_names step])
  case (step find r s g obstacles path)
  show ?case
  proof (cases "closest_obstacle_loop s g obstacles None")
    case None
    then have "obstacles = []" by (rule closest_obstacle_loop_None)
    with step(2) None show ?thesis by (auto simp: well_routed_def)
  next
    case (Some a)
    obtain md co where a: "a = (md, co)" by (cases a)
    define m where "m = calculate_detour_midpoint r s g co"
    show ?thesis
    proof (cases "is_path_clear r s m obstacles \<and> is_path_clear r m g obstacles")
      case True
      with step(2) Some a show ?thesis by (auto simp: well_routed_def m_def Let_def)
    next
      case False
      define A where "A = (if \<not> is_path_clear r s m obstacles then find r s m obstacles else Some [s, m])"
      define B where "B = (if \<not> is_path_clear r m g obstacles then find r m g obstacles else Some [m, g])"
      have eq: "Option.bind A (\<lambda>detour1. Option.bind B (\<lambda>detour2. Some (butlast detour1 @ detour2))) = Some path"
        using step(2) False unfolding Some a m_def A_def B_def
        by (simp only: Let_def option.case prod.case if_False)
      then obtain d1 where A: "A = Some d1"
        and eq2: "Option.bind B (\<lambda>detour2. Some (butlast d1 @ detour2)) = Some path"
        by (cases A) auto
      then obtain d2 where B: "B = Some d2" and p: "path = butlast d1 @ d2"
        by (cases B) auto
      note d1 = A [unfolded A_def] and d2 = B [unfolded B_def]
      have "well_routed r obstacles s m d1"
        using d1 step(1) by (auto simp: well_routed_def split: if_splits)
      moreover have "well_routed r obstacles m g d2"
        using d2 step(1) by (auto simp: well_routed_def split: if_splits)
      ultimately show ?thesis unfolding p by (rule well_routed_join)
    qed
  qed
qed

lemma safe_chain_nth:
  "safe_chain r obstacles path \<Longrightarrow> Suc i < length path
     \<Longrightarrow> is_path_clear r (path ! i) (path ! Suc i) obstacles"
proof (induction r obstacles path arbitrary: i rule: safe_chain.induct)
  case (3 r obstacles p q rest)
  then show ?case by (cases i) auto
qed auto

lemma sep_ge_sep_min: "sep_ge m r \<Longrightarrow> r \<le> d \<Longrightarrow> sep_ge (sep_min m d) r"
  by (cases m) auto

lemma sep_ge_fold_obstacles:
  "sep_ge m r \<Longrightarrow> \<forall>ob \<in> set obstacles. r \<le> f ob
     \<Longrightarrow> sep_ge (fold (\<lambda>obstacle m. sep_min m (f obstacle)) obstacles m) r"
  by (induction obstacles arbitrary: m) (auto simp: sep_ge_sep_min)

lemma sep_ge_fold_segments:
  "sep_ge m r \<Longrightarrow> \<forall>i \<in> set idxs. \<forall>ob \<in> set obstacles. r \<le> f i ob
     \<Longrightarrow> sep_ge (fold (\<lambda>i m. fold (\<lambda>obstacle m. sep_min m (f i obstacle)) obstacles m) idxs m) r"
  by (induction idxs arbitrary: m) (auto simp: sep_ge_fold_obstacles)

lemma safe_chain_min_separation:
  assumes "safe_chain r obstacles path"
  shows "sep_ge (min_separation_loop path obstacles) r"
proof -
  have "\<forall>i \<in> set [0..<length path - 1]. \<forall>ob \<in> set obstacles.
          r \<le> point_to_line_distance (path ! i) (path ! (i + 1)) ob"
    using safe_chain_nth [OF assms] by (auto simp: is_path_clear_iff)
  then show ?thesis
    unfolding min_separation_loop_def by (intro sep_ge_fold_segments) auto
qed

lemma plan_path_well_routed:
  "plan_path r s g obstacles = Some path \<Longrightarrow> well_routed r obstacles s g path"
  by (auto simp: plan_path_def well_routed_def dest: find_detour_path_well_routed
      split: if_splits)

text \<open>
  C1: Whenever \<open>plan_path\<close> returns a path (the detour search came to an end),
  \<open>validate_path\<close> on that path and the same obstacles reports a \<open>minSeparation\<close> of at
  least the safety radius: every segment between consecutive waypoints keeps at least
  that distance from every obstacle.
\<close>

theorem plan_path_min_separation:
  assumes "plan_path safety_radius start goal obstacles = Some path"
  shows "sep_ge (minSeparation (validate_path safety_radius path obstacles)) safety_radius
       \<and> (\<forall>i. i + 1 < length path \<longrightarrow>
            (\<forall>ob \<in> set obstacles.
               safety_radius \<le> point_to_line_distance (path ! i) (path ! (i + 1)) ob))"
proof -
  have sc: "safe_chain safety_radius obstacles path"
    using plan_path_well_routed [OF assms] by (simp add: well_routed_def)
  have "sep_ge (minSeparation (validate_path safety_radius path obstacles)) safety_radius"
    using safe_chain_min_separation [OF sc] by (simp add: validate_path_def Let_def)
  moreover have "\<forall>i. i + 1 < length path \<longrightarrow>
            (\<forall>ob \<in> set obstacles.
               safety_radius \<le> point_to_line_distance (path ! i) (path ! (i + 1)) ob)"
    using safe_chain_nth [OF sc] by (auto simp: is_path_clear_iff)
  ultimately show ?thesis by blast
qed

lemma sqrt_less_nonneg: "0 \<le> r \<Longrightarrow> sqrt a < r \<longleftrightarrow> a < r\<^sup>2"
  by (metis real_sqrt_less_iff real_sqrt_abs abs_of_nonneg)

lemma sqrt_mult_less: "0 < c \<Longrightarrow> 0 \<le> r \<Longrightarrow> sqrt a * c < r \<longleftrightarrow> a < (r / c)\<^sup>2"
  using sqrt_less_nonneg [of "r / c" a] by (simp add: pos_less_divide_eq)

lemma plan_path_scenario:
  "plan_path (3/10) (0, 0, 1/2) (2, 0, 1/2) [(1, 0, 1/2)]
     = Some [(0, 0, 1/2), (1, 0, 19/20), (2, 0, 1/2)]"
  unfolding plan_path_def
  apply (subst find_detour_path.simps)
  apply (simp add: Let_def sqrt_less_nonneg sqrt_mult_less power2_eq_square)
  done

theorem plan_path_min_separation_witness:
  "plan_path (3/10) (0, 0, 1/2) (2, 0, 1/2) [(1, 0, 1/2)]
     = Some [(0, 0, 1/2), (1, 0, 19/20), (2, 0, 1/2)]
   \<and> sep_ge (minSeparation (validate_path (3/10) [(0, 0, 1/2), (1, 0, 19/20), (2, 0, 1/2)]
                [(1, 0, 1/2)])) (3/10)"
  using plan_path_min_separation [OF plan_path_scenario] plan_path_scenario by simp

text \<open>
  C4: When no obstacle is closer than the safety radius to the segment from start to
  goal, the distance being that of \<open>point_to_line_distance\<close> (projection onto the segment
  with the parameter clamped to \<open>[0, 1]\<close>), \<open>plan_path\<close> returns the two-point path
  \<open>[start, goal]\<close>.
\<close>

theorem plan_path_direct:
  assumes "\<forall>ob \<in> set obstacles. \<not> point_to_line_distance start goal ob < safety_radius"
  shows "plan_path safety_radius start goal obstacles = Some [start, goal]"
  using assms by (simp add: plan_path_def is_path_clear_iff not_less)

theorem plan_path_direct_witness:
  "3 / 10 \<le> point_to_line_distance (0, 0, 0) (1, 0, 0) (0, 1, 0)
   \<and> plan_path (3 / 10) (0, 0, 0) (1, 0, 0) [(0, 1, 0)] = Some [(0, 0, 0), (1, 0, 0)]"
proof -
  have d: "3 / 10 \<le> point_to_line_distance (0, 0, 0) (1, 0, 0) (0, 1, 0)"
    by (simp add: Let_def)
  then have "\<forall>ob \<in> set [(0, 1, 0)]. \<not> point_to_line_distance (0, 0, 0) (1, 0, 0) ob < 3 / 10"
    by simp
  from plan_path_direct [OF this] d show ?thesis by blast
qed

lemma fold_const: "fold (\<lambda>i m. m) idxs a = a"
  by (induction idxs) auto

lemma min_separation_loop_no_obstacles: "min_separation_loop path [] = PosInf"
  by (simp add: min_separation_loop_def fold_const)

lemma fold_add_sum_list: "fold (\<lambda>i (acc::real). acc + f i) idxs a = a + sum_list (map f idxs)"
  by (induction idxs arbitrary: a) auto

lemma path_length_loop_sum:
  "path_length_loop path = (\<Sum>i = 1..<length path. euclid (path ! (i - 1)) (path ! i))"
  by (simp add: path_length_loop_def fold_add_sum_list interv_sum_list_conv_sum_set_nat)

text \<open>
  C10: For a path of at least two waypoints and no obstacles, \<open>validate_path\<close> reports
  \<open>valid\<close> and \<open>success\<close> true, an infinite \<open>minSeparation\<close>, the number of waypoints, and
  as \<open>pathLength\<close> the sum of the Euclidean distances between consecutive waypoints.
\<close>

theorem validate_path_no_obstacles:
  assumes "2 \<le> length path"
  shows "validate_path safety_radius path [] =
           \<lparr>valid = True, reason = None,
            pathLength = (\<Sum>i = 1..<length path. euclid (path ! (i - 1)) (path ! i)),
            minSeparation = PosInf, success = True, waypoints = Some (length path)\<rparr>"
  using assms
  by (simp add: validate_path_def min_separation_loop_no_obstacles path_length_loop_sum)

theorem validate_path_no_obstacles_witness:
  "2 \<le> length [(0, 0, 0), (3, 4, 0) :: point]
   \<and> validate_path (3/10) [(0, 0, 0), (3, 4, 0)] [] =
       \<lparr>valid = True, reason = None, pathLength = 5,
        minSeparation = PosInf, success = True, waypoints = Some 2\<rparr>"
proof -
  have h: "2 \<le> length [(0, 0, 0), (3, 4, 0) :: point]" by simp
  have "sqrt 25 = 5" using real_sqrt_abs [of 5] by simp
  with validate_path_no_obstacles [OF h, of "3/10"] h show ?thesis by simp
qed

section \<open>The simulator\<close>

lemma update_takeoff_battery:
  "update_takeoff d t = Inr d' \<Longrightarrow> battery d' = battery d"
  by (auto simp: update_takeoff_def Let_def split: if_splits)

lemma update_flying_battery: "battery (update_flying d t) = battery d"
  by (simp add: update_flying_def Let_def)

lemma update_landing_battery: "battery (update_landing d t) = battery d"
  by (simp add: update_landing_def Let_def)

lemma check_errors_battery: "battery (check_errors d) = battery d"
  by (simp add: check_errors_def)

lemma apply_noise_battery: "battery (apply_noise n d) = battery d"
  by (simp add: apply_noise_def)

lemma check_errors_keeps_error: "status d = ERROR \<Longrightarrow> status (check_errors d) = ERROR"
  by (simp add: check_errors_def)

lemma apply_noise_status: "status (apply_noise n d) = status d"
  by (simp add: apply_noise_def)

text \<open>The two ways in which the step for one drone ends.\<close>

lemma update_drone_cases:
  obtains
    (raised) e where
      "update_drone t n d
         = (d\<lparr>battery := max 0 (battery d - battery_drain_rate * dt)\<rparr>, Some e)"
      and "status d = TAKING_OFF"
  | (returned) d1 where
      "update_drone t n d = ((check_errors (apply_noise n d1))\<lparr>last_update := t\<rparr>, None)"
      and "battery d1 = max 0 (battery d - battery_drain_rate * dt)"
      and "status d = ERROR \<longrightarrow> status d1 = ERROR"
proof -
  define d0 where "d0 = d\<lparr>battery := max 0 (battery d - battery_drain_rate * dt)\<rparr>"
  define moved where "moved =
    (if status d0 = TAKING_OFF then update_takeoff d0 t
     else if status d0 = FLYING then Inr (update_flying d0 t)
     else if status d0 = LANDING then Inr (update_landing d0 t)
     else Inr d0)"
  have ud: "update_drone t n d =
      (case moved of Inl e \<Rightarrow> (d0, Some e)
       | Inr d1 \<Rightarrow> ((check_errors (apply_noise n d1))\<lparr>last_update := t\<rparr>, None))"
    unfolding update_drone_def moved_def d0_def Let_def ..
  have b0: "battery d0 = max 0 (battery d - battery_drain_rate * dt)"
    and s0: "status d0 = status d"
    by (simp_all add: d0_def)
  show thesis
  proof (cases moved)
    case (Inl e)
    then have "status d = TAKING_OFF"
      using s0 unfolding moved_def by (auto split: if_splits)
    with Inl ud show thesis by (intro raised [of e]) (simp_all add: d0_def)
  next
    case (Inr d1)
    have "battery d1 = battery d0"
      using Inr unfolding moved_def
      by (auto simp: update_flying_battery update_landing_battery
          dest: update_takeoff_battery split: if_splits)
    moreover have "status d = ERROR \<longrightarrow> status d1 = ERROR"
      using Inr s0 unfolding moved_def by (auto split: if_splits)
    ultimately show thesis using Inr ud b0 by (intro returned [of d1]) simp_all
  qed
qed

lemma update_drone_battery:
  "battery (fst (update_drone t n d)) = max 0 (battery d - battery_drain_rate * dt)"
  by (cases t n d rule: update_drone_cases)
    (simp_all add: check_errors_battery apply_noise_battery)

text \<open>Batteries start at 100 and no step makes one negative.\<close>

lemma new_drone_battery: "battery (new_drone did rid) = 100"
  by (simp add: new_drone_def)

lemma update_drone_battery_nonneg: "0 \<le> battery (fst (update_drone t n d))"
  by (simp add: update_drone_battery)

lemma update_drone_error:
  "status d = ERROR \<Longrightarrow> status (fst (update_drone t n d)) = ERROR"
  by (cases t n d rule: update_drone_cases)
    (simp_all add: check_errors_keeps_error apply_noise_status)

lemma check_errors_bounds:
  "\<bar>x (check_errors d)\<bar> > workspace_bounds \<or> \<bar>y (check_errors d)\<bar> > workspace_bounds
     \<or> z (check_errors d) > max_height \<or> battery (check_errors d) \<le> 0
   \<Longrightarrow> status (check_errors d) = ERROR"
  by (auto simp: check_errors_def split: if_splits)

lemma update_drone_bounds:
  assumes "update_drone t n d = (d', None)"
    and "\<bar>x d'\<bar> > workspace_bounds \<or> \<bar>y d'\<bar> > workspace_bounds \<or> z d' > max_height
         \<or> battery d' \<le> 0"
  shows "status d' = ERROR"
proof (cases t n d rule: update_drone_cases)
  case (raised e)
  with assms(1) show ?thesis by simp
next
  case (returned d1)
  with assms(1) have "d' = (check_errors (apply_noise n d1))\<lparr>last_update := t\<rparr>" by simp
  with assms(2) check_errors_bounds [of "apply_noise n d1"] show ?thesis by simp
qed

text \<open>
  A tick keeps the keys of the registry in place; every drone is either untouched (the
  loop was left before it) or the result of its own step.
\<close>

lemma update_drones_from_map_of:
  "map_of drones did = Some d
     \<Longrightarrow> \<exists>d'. map_of (fst (update_drones_from k t ns drones)) did = Some d'
             \<and> (d' = d \<or> (\<exists>j. d' = fst (update_drone t (ns j) d)))
             \<and> (snd (update_drones_from k t ns drones) = None
                  \<longrightarrow> (\<exists>j. d' = fst (update_drone t (ns j) d)))"
proof (induction drones arbitrary: k)
  case Nil
  then show ?case by simp
next
  case (Cons e drones)
  obtain key d0 where e: "e = (key, d0)" by (cases e)
  obtain d0' err where u: "update_drone t (ns k) d0 = (d0', err)"
    by (cases "update_drone t (ns k) d0")
  obtain rest' err' where r: "update_drones_from (Suc k) t ns drones = (rest', err')"
    by (cases "update_drones_from (Suc k) t ns drones")
  show ?case
  proof (cases "key = did")
    case True
    with Cons.prems e have "d0 = d" by simp
    with True e u r show ?thesis
      by (cases err) (auto intro: exI [of _ k] dest: arg_cong [of _ _ fst])
  next
    case False
    with Cons.prems e have m: "map_of drones did = Some d" by simp
    from Cons.IH [OF m, of "Suc k"] r False e u m show ?thesis
      by (cases err) auto
  qed
qed

lemma update_drones_from_set:
  "update_drones_from k t ns drones = (drones', None) \<Longrightarrow> (key, d') \<in> set drones'
     \<Longrightarrow> \<exists>j d. (key, d) \<in> set drones \<and> update_drone t (ns j) d = (d', None)"
proof (induction drones arbitrary: k drones')
  case Nil
  then show ?case by simp
next
  case (Cons e drones)
  obtain key0 d0 where e: "e = (key0, d0)" by (cases e)
  from Cons.prems(1) e obtain d0' rest' where
    h: "update_drone t (ns k) d0 = (d0', None)"
    and r: "update_drones_from (Suc k) t ns drones = (rest', None)"
    and d': "drones' = (key0, d0') # rest'"
    by (auto split: prod.splits option.splits)
  from Cons.prems(2) d' consider "key = key0 \<and> d' = d0'" | "(key, d') \<in> set rest'" by auto
  then show ?case
  proof cases
    case 1
    with h e show ?thesis by auto
  next
    case 2
    from Cons.IH [OF r this] show ?thesis by auto
  qed
qed

lemma assign_targets_map_of:
  "map_of drones did = Some d
     \<Longrightarrow> \<exists>d'. map_of (assign_targets ps i drones) did = Some d'
             \<and> status d' = status d \<and> battery d' = battery d"
  by (induction ps i drones rule: assign_targets.induct) auto

lemma emergency_stop_map_of:
  "map_of (emergency_stop drones) did
     = map_option (\<lambda>drone. drone\<lparr>vx := 0, vy := 0, vz := 0, status := IDLE\<rparr>) (map_of drones did)"
  by (induction drones) (auto simp: emergency_stop_def)

lemma update_drones_status_error:
  assumes "status_of drones did = Some ERROR"
  shows "status_of (fst (update_drones t ns drones)) did = Some ERROR"
proof -
  from assms obtain d where d: "map_of drones did = Some d" and e: "status d = ERROR"
    by (auto simp: status_of_def)
  from update_drones_from_map_of [OF d, of 0 t ns]
  obtain d' where "map_of (fst (update_drones t ns drones)) did = Some d'"
    and "d' = d \<or> (\<exists>j. d' = fst (update_drone t (ns j) d))"
    unfolding update_drones_def by blast
  with e show ?thesis by (auto simp: status_of_def update_drone_error)
qed

lemma update_drones_battery:
  assumes "battery_of drones did = Some b"
  shows "(battery_of (fst (update_drones t ns drones)) did = Some b
          \<or> battery_of (fst (update_drones t ns drones)) did
              = Some (max 0 (b - battery_drain_rate * dt)))
       \<and> (snd (update_drones t ns drones) = None
            \<longrightarrow> battery_of (fst (update_drones t ns drones)) did
                = Some (max 0 (b - battery_drain_rate * dt)))"
proof -
  from assms obtain d where d: "map_of drones did = Some d" and e: "battery d = b"
    by (auto simp: battery_of_def)
  from update_drones_from_map_of [OF d, of 0 t ns]
  obtain d' where m: "map_of (fst (update_drones t ns drones)) did = Some d'"
    and alt: "d' = d \<or> (\<exists>j. d' = fst (update_drone t (ns j) d))"
    and full: "snd (update_drones t ns drones) = None
                 \<longrightarrow> (\<exists>j. d' = fst (update_drone t (ns j) d))"
    unfolding update_drones_def by (elim exE conjE)
  have step: "battery (fst (update_drone t (ns j) d)) = max 0 (b - battery_drain_rate * dt)"
    for j
    using e by (simp add: update_drone_battery)
  have 1: "battery d' = b \<or> battery d' = max 0 (b - battery_drain_rate * dt)"
    using alt
  proof
    assume "d' = d"
    with e show ?thesis by simp
  next
    assume "\<exists>j. d' = fst (update_drone t (ns j) d)"
    then obtain j where "d' = fst (update_drone t (ns j) d)" ..
    with step [of j] show ?thesis by simp
  qed
  have 2: "battery d' = max 0 (b - battery_drain_rate * dt)"
    if "snd (update_drones t ns drones) = None"
  proof -
    from full that obtain j where "d' = fst (update_drone t (ns j) d)" by blast
    with step [of j] show ?thesis by simp
  qed
  show ?thesis using m 1 2 by (simp add: battery_of_def)
qed

lemma takeoff_status_error:
  "status_of drones did = Some ERROR
     \<Longrightarrow> status_of (snd (takeoff drones i height duration t)) did = Some ERROR"
  by (auto simp: takeoff_def status_of_def update_conv' split: option.splits)

lemma goto_status_error:
  "status_of drones did = Some ERROR
     \<Longrightarrow> status_of (snd (goto drones i gx gy gz speed)) did = Some ERROR"
  by (auto simp: goto_def status_of_def update_conv' split: option.splits)

lemma land_status_error:
  "status_of drones did = Some ERROR
     \<Longrightarrow> status_of (snd (land drones i t)) did = Some ERROR"
  by (auto simp: land_def status_of_def update_conv' split: option.splits)

lemma set_formation_status:
  "status_of (snd (set_formation drones formation parameters)) did = status_of drones did"
proof (cases "map_of drones did")
  case None
  have "map_of (assign_targets ps i drones) did = None" for ps i
    using None by (induction ps i drones rule: assign_targets.induct) (auto split: if_splits)
  with None show ?thesis by (simp add: set_formation_def status_of_def Let_def)
next
  case (Some d)
  from assign_targets_map_of [OF Some] Some show ?thesis
    by (fastforce simp: set_formation_def status_of_def Let_def)
qed

lemma set_formation_battery:
  "battery_of (snd (set_formation drones formation parameters)) did = battery_of drones did"
proof (cases "map_of drones did")
  case None
  have "map_of (assign_targets ps i drones) did = None" for ps i
    using None by (induction ps i drones rule: assign_targets.induct) (auto split: if_splits)
  with None show ?thesis by (simp add: set_formation_def battery_of_def Let_def)
next
  case (Some d)
  from assign_targets_map_of [OF Some] Some show ?thesis
    by (fastforce simp: set_formation_def battery_of_def Let_def)
qed

lemma takeoff_battery:
  "battery_of (snd (takeoff drones i height duration t)) did = battery_of drones did"
  by (auto simp: takeoff_def battery_of_def update_conv' split: option.splits)

lemma goto_battery:
  "battery_of (snd (goto drones i gx gy gz speed)) did = battery_of drones did"
  by (auto simp: goto_def battery_of_def update_conv' split: option.splits)

lemma land_battery:
  "battery_of (snd (land drones i t)) did = battery_of drones did"
  by (auto simp: land_def battery_of_def update_conv' split: option.splits)

lemma emergency_stop_battery:
  "battery_of (emergency_stop drones) did = battery_of drones did"
  by (cases "map_of drones did") (simp_all add: battery_of_def emergency_stop_map_of)

text \<open>
  C2, as the code has it: a drone in status \<open>ERROR\<close> stays in \<open>ERROR\<close> through a tick
  (also one that an exception cuts short) and through \<open>takeoff\<close>, \<open>goto\<close>, \<open>land\<close> and
  \<open>set_formation\<close>, whichever drone the command addresses. \<open>emergency_stop\<close> is not
  among them: it sets every drone to \<open>IDLE\<close>.
\<close>

theorem error_status_persists:
  assumes "status_of drones did = Some ERROR"
  shows "status_of (fst (update_drones t ns drones)) did = Some ERROR
       \<and> status_of (snd (takeoff drones i height duration t)) did = Some ERROR
       \<and> status_of (snd (goto drones i gx gy gz speed)) did = Some ERROR
       \<and> status_of (snd (land drones i t)) did = Some ERROR
       \<and> status_of (snd (set_formation drones formation parameters)) did = Some ERROR"
  using assms
  by (simp add: update_drones_status_error takeoff_status_error goto_status_error
      land_status_error set_formation_status)

lemma tick_error_drone:
  "update_drones 0 calm [(''d1'', (new_drone ''d1'' ''run'')\<lparr>status := ERROR\<rparr>)]
     = ([(''d1'', (new_drone ''d1'' ''run'')\<lparr>status := ERROR, battery := 19999 / 200\<rparr>)],
        None)"
  by (simp add: update_drones_def update_drone_def Let_def new_drone_def calm_def
      apply_noise_def check_errors_def battery_drain_rate_def dt_def tick_rate_def
      workspace_bounds_def max_height_def)

theorem error_status_persists_witness:
  "status_of [(''d1'', (new_drone ''d1'' ''run'')\<lparr>status := ERROR\<rparr>)] ''d1'' = Some ERROR
   \<and> status_of [(''d1'', (new_drone ''d1'' ''run'')\<lparr>status := ERROR, battery := 19999 / 200\<rparr>)]
        ''d1'' = Some ERROR
   \<and> status_of (snd (takeoff [(''d1'', (new_drone ''d1'' ''run'')\<lparr>status := ERROR\<rparr>)]
                       ''d1'' 1 2 0)) ''d1'' = Some ERROR"
proof -
  have h: "status_of [(''d1'', (new_drone ''d1'' ''run'')\<lparr>status := ERROR\<rparr>)] ''d1''
             = Some ERROR"
    by (simp add: status_of_def)
  from error_status_persists [OF h, of 0 calm "''d1''" 1 2] tick_error_drone h
  show ?thesis by simp
qed

text \<open>\<open>emergency_stop\<close> takes a drone out of \<open>ERROR\<close>.\<close>

theorem error_status_counterexample:
  "status_of [(''d1'', (new_drone ''d1'' ''run'')\<lparr>status := ERROR\<rparr>)] ''d1'' = Some ERROR
   \<and> status_of (emergency_stop [(''d1'', (new_drone ''d1'' ''run'')\<lparr>status := ERROR\<rparr>)]) ''d1''
       = Some IDLE"
  by (simp add: status_of_def emergency_stop_def)

text \<open>
  C3, as the code has it: after a tick that ran to its end, every drone whose position,
  noise included, has \<open>|x|\<close> or \<open>|y|\<close> above the workspace bound or \<open>z\<close> above the
  maximal height is in status \<open>ERROR\<close>. There is no lower bound on \<open>z\<close>.
\<close>

theorem tick_bounds_force_error:
  assumes "update_drones t ns drones = (drones', None)"
    and "(key, d') \<in> set drones'"
    and "\<bar>x d'\<bar> > workspace_bounds \<or> \<bar>y d'\<bar> > workspace_bounds \<or> z d' > max_height"
  shows "status d' = ERROR"
proof -
  from update_drones_from_set [OF assms(1) [unfolded update_drones_def] assms(2)]
  obtain j d where "update_drone t (ns j) d = (d', None)" by blast
  then show ?thesis using assms(3) by (auto dest: update_drone_bounds)
qed

lemma tick_drift:
  "update_drones 0 drift [(''d1'', new_drone ''d1'' ''run'')]
     = ([(''d1'', (new_drone ''d1'' ''run'')\<lparr>x := 3, battery := 19999 / 200,
                                              status := ERROR\<rparr>)], None)"
  by (simp add: update_drones_def update_drone_def Let_def new_drone_def drift_def
      apply_noise_def check_errors_def battery_drain_rate_def dt_def tick_rate_def
      workspace_bounds_def max_height_def)

theorem tick_bounds_force_error_witness:
  "update_drones 0 drift [(''d1'', new_drone ''d1'' ''run'')]
     = ([(''d1'', (new_drone ''d1'' ''run'')\<lparr>x := 3, battery := 19999 / 200,
                                              status := ERROR\<rparr>)], None)
   \<and> status ((new_drone ''d1'' ''run'')\<lparr>x := 3, battery := 19999 / 200, status := ERROR\<rparr>)
       = ERROR"
  using tick_bounds_force_error [OF tick_drift, of "''d1''"
      "(new_drone ''d1'' ''run'')\<lparr>x := 3, battery := 19999 / 200, status := ERROR\<rparr>"]
    tick_drift
  by (simp add: workspace_bounds_def)

text \<open>
  A drone on the ground whose noise draw for \<open>z\<close> is negative ends the tick below 0 and is
  still \<open>IDLE\<close>.
\<close>

theorem tick_negative_z_counterexample:
  "update_drones 0 dip [(''d1'', new_drone ''d1'' ''run'')]
     = ([(''d1'', (new_drone ''d1'' ''run'')\<lparr>z := - (1 / 100), battery := 19999 / 200\<rparr>)],
        None)
   \<and> z ((new_drone ''d1'' ''run'')\<lparr>z := - (1 / 100), battery := 19999 / 200\<rparr>) < 0
   \<and> status ((new_drone ''d1'' ''run'')\<lparr>z := - (1 / 100), battery := 19999 / 200\<rparr>) = IDLE"
  by (simp add: update_drones_def update_drone_def Let_def new_drone_def dip_def
      apply_noise_def check_errors_def battery_drain_rate_def dt_def tick_rate_def
      workspace_bounds_def max_height_def)

text \<open>
  C5: \<open>goto\<close> returns true exactly when the drone exists and is \<open>FLYING\<close> or \<open>TAKING_OFF\<close>;
  it then stores the target \<open>(gx, gy, gz)\<close> in that drone and changes nothing else of it.
  In every other case it returns false and the registry is unchanged.
\<close>

theorem goto_contract:
  "(fst (goto drones did gx gy gz speed)
      \<longleftrightarrow> (\<exists>drone. map_of drones did = Some drone
                    \<and> (status drone = FLYING \<or> status drone = TAKING_OFF)))
   \<and> (fst (goto drones did gx gy gz speed)
        \<longrightarrow> (\<exists>drone. map_of drones did = Some drone
               \<and> map_of (snd (goto drones did gx gy gz speed)) did
                   = Some (drone\<lparr>target_x := gx, target_y := gy, target_z := gz\<rparr>)))
   \<and> (\<not> fst (goto drones did gx gy gz speed)
        \<longrightarrow> snd (goto drones did gx gy gz speed) = drones)"
  by (auto simp: goto_def update_conv' split: option.splits)

theorem goto_contract_witness:
  "fst (goto [(''d1'', (new_drone ''d1'' ''run'')\<lparr>status := FLYING\<rparr>)] ''d1'' 1 (1 / 2) (3 / 5) 9)
   \<and> map_of (snd (goto [(''d1'', (new_drone ''d1'' ''run'')\<lparr>status := FLYING\<rparr>)]
                     ''d1'' 1 (1 / 2) (3 / 5) 9)) ''d1''
       = Some ((new_drone ''d1'' ''run'')\<lparr>status := FLYING, target_x := 1, target_y := 1 / 2,
                                          target_z := 3 / 5\<rparr>)
   \<and> \<not> fst (goto [(''d1'', new_drone ''d1'' ''run'')] ''d1'' 1 (1 / 2) (3 / 5) 9)
   \<and> snd (goto [(''d1'', new_drone ''d1'' ''run'')] ''d1'' 1 (1 / 2) (3 / 5) 9)
       = [(''d1'', new_drone ''d1'' ''run'')]
   \<and> \<not> fst (goto [(''d1'', new_drone ''d1'' ''run'')] ''d7'' 1 (1 / 2) (3 / 5) 9)"
  using goto_contract [of "[(''d1'', (new_drone ''d1'' ''run'')\<lparr>status := FLYING\<rparr>)]" "''d1''"
      1 "1 / 2" "3 / 5" 9]
    goto_contract [of "[(''d1'', new_drone ''d1'' ''run'')]" "''d1''" 1 "1 / 2" "3 / 5" 9]
    goto_contract [of "[(''d1'', new_drone ''d1'' ''run'')]" "''d7''" 1 "1 / 2" "3 / 5" 9]
  by (simp add: new_drone_def)

lemma update_flying_speed:
  "sqrt ((vx (update_flying drone t))\<^sup>2 + (vy (update_flying drone t))\<^sup>2
         + (vz (update_flying drone t))\<^sup>2) \<le> max_speed"
proof -
  define dx where "dx = target_x drone - x drone"
  define dy where "dy = target_y drone - y drone"
  define dz where "dz = target_z drone - z drone"
  define dist where "dist = sqrt (dx\<^sup>2 + dy\<^sup>2 + dz\<^sup>2)"
  define sp where "sp = max_speed * min 1 (dist / (1 / 10))"
  show ?thesis
  proof (cases "dist > 5 / 100")
    case True
    then have pos: "dist > 0" by simp
    have sq: "dist\<^sup>2 = dx\<^sup>2 + dy\<^sup>2 + dz\<^sup>2"
      unfolding dist_def by (simp add: sum_nonneg)
    have sp_nonneg: "0 \<le> sp"
      using pos by (simp add: sp_def max_speed_def min_def)
    have sp_le: "sp \<le> max_speed"
      by (simp add: sp_def max_speed_def)
    have "(dx / dist * sp)\<^sup>2 + (dy / dist * sp)\<^sup>2 + (dz / dist * sp)\<^sup>2
            = sp\<^sup>2 * ((dx\<^sup>2 + dy\<^sup>2 + dz\<^sup>2) / dist\<^sup>2)"
      by (simp add: power_mult_distrib power_divide algebra_simps add_divide_distrib)
    also have "\<dots> = sp\<^sup>2"
      using pos by (simp add: sq [symmetric])
    finally have "sqrt ((dx / dist * sp)\<^sup>2 + (dy / dist * sp)\<^sup>2 + (dz / dist * sp)\<^sup>2) = sp"
      using sp_nonneg by simp
    moreover have "vx (update_flying drone t) = dx / dist * sp"
      "vy (update_flying drone t) = dy / dist * sp"
      "vz (update_flying drone t) = dz / dist * sp"
      using True
      by (simp_all add: update_flying_def Let_def dx_def dy_def dz_def dist_def sp_def)
    ultimately show ?thesis using sp_le by simp
  next
    case False
    then show ?thesis
      by (simp add: update_flying_def Let_def dx_def dy_def dz_def dist_def max_speed_def)
  qed
qed

text \<open>
  C6: The \<open>speed\<close> argument of \<open>goto\<close> has no effect: two calls that differ only in it
  return the same result and the same registry, every run of ticks from there gives the
  same outcome, and the speed that \<open>_update_flying\<close> sets never exceeds \<open>max_speed\<close>.
\<close>

theorem goto_speed_irrelevant:
  "goto drones did gx gy gz s1 = goto drones did gx gy gz s2
   \<and> run_ticks ticks (snd (goto drones did gx gy gz s1))
       = run_ticks ticks (snd (goto drones did gx gy gz s2))
   \<and> sqrt ((vx (update_flying drone t))\<^sup>2 + (vy (update_flying drone t))\<^sup>2
            + (vz (update_flying drone t))\<^sup>2) \<le> max_speed"
  using update_flying_speed [of drone t] by (simp add: goto_def)

text \<open>
  C7: For a drone in \<open>TAKING_OFF\<close> whose elapsed time since \<open>takeoff_start\<close> has reached
  \<open>takeoff_duration\<close>, \<open>_update_takeoff\<close> sets \<open>z\<close> to the commanded height, \<open>vz\<close> to 0 and
  the status to \<open>FLYING\<close>; the tick then adds its noise to both, and its error check
  leaves the status \<open>FLYING\<close> or makes it \<open>ERROR\<close>.
\<close>

theorem takeoff_completes:
  assumes "status drone = TAKING_OFF"
    and "current_time - takeoff_start drone \<ge> takeoff_duration drone"
  shows "update_takeoff drone current_time
           = Inr (drone\<lparr>z := takeoff_height drone, vz := 0, status := FLYING\<rparr>)
       \<and> (\<exists>drone'. update_drone current_time n drone = (drone', None)
              \<and> z drone' = takeoff_height drone + noise_z n
              \<and> vz drone' = noise_vz n
              \<and> (status drone' = FLYING \<or> status drone' = ERROR))"
proof -
  have 1: "update_takeoff drone current_time
           = Inr (drone\<lparr>z := takeoff_height drone, vz := 0, status := FLYING\<rparr>)"
    using assms(2) by (simp add: update_takeoff_def Let_def)
  have 2: "update_takeoff (drone\<lparr>battery := b\<rparr>) current_time
           = Inr (drone\<lparr>battery := b, z := takeoff_height drone, vz := 0, status := FLYING\<rparr>)"
    for b
    using assms(2) by (simp add: update_takeoff_def Let_def)
  have "\<exists>drone'. update_drone current_time n drone = (drone', None)
              \<and> z drone' = takeoff_height drone + noise_z n
              \<and> vz drone' = noise_vz n
              \<and> (status drone' = FLYING \<or> status drone' = ERROR)"
    using assms(1) by (simp add: update_drone_def Let_def 2 apply_noise_def check_errors_def)
  with 1 show ?thesis by blast
qed

theorem takeoff_completes_witness:
  "status ((new_drone ''d1'' ''run'')\<lparr>status := TAKING_OFF, takeoff_height := 3 / 5,
                                     takeoff_duration := 2, takeoff_start := 10\<rparr>) = TAKING_OFF
   \<and> update_takeoff ((new_drone ''d1'' ''run'')\<lparr>status := TAKING_OFF, takeoff_height := 3 / 5,
                                     takeoff_duration := 2, takeoff_start := 10\<rparr>) 12
       = Inr ((new_drone ''d1'' ''run'')\<lparr>status := FLYING, takeoff_height := 3 / 5,
                                     takeoff_duration := 2, takeoff_start := 10, z := 3 / 5\<rparr>)"
  using takeoff_completes [of "(new_drone ''d1'' ''run'')\<lparr>status := TAKING_OFF,
      takeoff_height := 3 / 5, takeoff_duration := 2, takeoff_start := 10\<rparr>" 12]
  by (simp add: new_drone_def)

text \<open>
  C8, as the code has it: for a drone of the registry with a battery value \<open>b \<ge> 0\<close>, a
  tick never raises the battery, a tick that ran to its end sets it to
  \<open>max 0 (b - battery_drain_rate * dt)\<close>, and \<open>takeoff\<close>, \<open>goto\<close>, \<open>land\<close>, \<open>set_formation\<close> and \<open>emergency_stop\<close> leave it as it
  is. \<open>create_swarm\<close> is not among them: it replaces the drones \<open>d1\<close>, \<open>d2\<close>, ... by new
  ones with a battery of 100.
\<close>

theorem battery_non_increasing:
  assumes "battery_of drones did = Some b" and "0 \<le> b"
  shows "(\<exists>b'. battery_of (fst (update_drones t ns drones)) did = Some b' \<and> b' \<le> b)
       \<and> (snd (update_drones t ns drones) = None
            \<longrightarrow> battery_of (fst (update_drones t ns drones)) did
                = Some (max 0 (b - battery_drain_rate * dt)))
       \<and> battery_of (snd (takeoff drones i height duration t)) did = Some b
       \<and> battery_of (snd (goto drones i gx gy gz speed)) did = Some b
       \<and> battery_of (snd (land drones i t)) did = Some b
       \<and> battery_of (snd (set_formation drones formation parameters)) did = Some b
       \<and> battery_of (emergency_stop drones) did = Some b"
proof -
  have "max 0 (b - battery_drain_rate * dt) \<le> b"
    using assms(2) by (simp add: battery_drain_rate_def dt_def tick_rate_def)
  with update_drones_battery [OF assms(1), of t ns]
  have "\<exists>b'. battery_of (fst (update_drones t ns drones)) did = Some b' \<and> b' \<le> b"
    by auto
  then show ?thesis
    using assms(1) update_drones_battery [OF assms(1), of t ns]
    by (simp add: takeoff_battery goto_battery land_battery
        set_formation_battery emergency_stop_battery)
qed

lemma tick_idle_drone:
  "update_drones 0 calm [(''d1'', new_drone ''d1'' ''run'')]
     = ([(''d1'', (new_drone ''d1'' ''run'')\<lparr>battery := 19999 / 200\<rparr>)], None)"
  by (simp add: update_drones_def update_drone_def Let_def new_drone_def calm_def
      apply_noise_def check_errors_def battery_drain_rate_def dt_def tick_rate_def
      workspace_bounds_def max_height_def)

theorem battery_non_increasing_witness:
  "battery_of [(''d1'', new_drone ''d1'' ''run'')] ''d1'' = Some 100
   \<and> battery_of [(''d1'', (new_drone ''d1'' ''run'')\<lparr>battery := 19999 / 200\<rparr>)] ''d1''
       = Some (max 0 (100 - battery_drain_rate * dt))
   \<and> battery_of (emergency_stop [(''d1'', new_drone ''d1'' ''run'')]) ''d1'' = Some 100"
proof -
  have h: "battery_of [(''d1'', new_drone ''d1'' ''run'')] ''d1'' = Some 100"
    by (simp add: battery_of_def new_drone_def)
  from battery_non_increasing [OF h, of 0 calm] tick_idle_drone h
  show ?thesis by simp
qed

text \<open>\<open>create_swarm\<close> on a registry that already holds \<open>d1\<close> raises its battery.\<close>

theorem create_swarm_battery_counterexample:
  "battery_of [(''d1'', (new_drone ''d1'' ''run'')\<lparr>battery := 50\<rparr>)] ''d1'' = Some 50
   \<and> battery_of (snd (create_swarm [(''d1'', (new_drone ''d1'' ''run'')\<lparr>battery := 50\<rparr>)]
                         1 ''again'')) ''d1'' = Some 100"
  by (simp add: battery_of_def create_swarm_def Let_def str_nat.simps new_drone_def)

text \<open>
  C9: The \<open>line\<close> pattern takes its spacing from the parameters but not its height: with
  \<open>height = 1\<close> among the parameters, where the other patterns read a height of 1, the
  single position for \<open>count = 1\<close> still has \<open>z = 0.6\<close>.
\<close>

theorem line_formation_ignores_height:
  "calculate_formation_positions ''line'' 1 [''spacing'' \<mapsto> 1 / 2, ''height'' \<mapsto> 1]
     = [(0, 0, 6 / 10)]
   \<and> param_get [''spacing'' \<mapsto> 1 / 2, ''height'' \<mapsto> 1] ''height'' (6 / 10) = 1"
  by (simp add: calculate_formation_positions_def param_get_def)

end
